theory Spec2Isabelle
  imports Complex_Main
begin

section \<open>Alignment records and the cost signal\<close>

text \<open>
  The program is the \<open>reefer\<close> command with breakpoint refinement: function \<open>deletions\<close>
  walks the CIGAR operations of each alignment record, smooths the per-unit cost with a
  sliding mean, cuts the smoothed signal at its sign changes and hands each retained span
  to \<open>refiner.adjust\<close> before writing it as a GFF feature.

  Go's \<open>int\<close> is modelled as \<open>int\<close> (no claim depends on 64-bit wrap-around) and
  \<open>float64\<close> as \<open>rat\<close>: the sums formed by \<open>mean\<close> are sums of small integers, and the
  only division is by the window length.
\<close>

datatype CigarOpType =
    CigarMatch | CigarInsertion | CigarDeletion | CigarSkipped | CigarSoftClipped
  | CigarHardClipped | CigarPadded | CigarEqual | CigarMismatch | CigarBack

text \<open>
  The ten kinds of \<open>sam.CigarOpType\<close>, in the order of their constants. A CIGAR operation
  is its kind and its length \<open>co.Len()\<close>, an unsigned count.
\<close>

type_synonym CigarOp = "CigarOpType \<times> nat"

record Consume =
  Query :: int
  Reference :: int

text \<open>
  Modelled from the spec: \<open>CigarOpType.Consumes\<close> belongs to the \<open>sam\<close> package, which is
  not part of the sources. Each kind advances reference only, query only, both or
  neither; the table below is the one of the SAM format. The functions that walk a CIGAR
  take the table as a parameter, so that general statements hold for every table.
\<close>

definition Consumes :: "CigarOpType \<Rightarrow> Consume" where
  "Consumes t = (case t of
      CigarMatch \<Rightarrow> \<lparr>Query = 1, Reference = 1\<rparr>
    | CigarInsertion \<Rightarrow> \<lparr>Query = 1, Reference = 0\<rparr>
    | CigarDeletion \<Rightarrow> \<lparr>Query = 0, Reference = 1\<rparr>
    | CigarSkipped \<Rightarrow> \<lparr>Query = 0, Reference = 1\<rparr>
    | CigarSoftClipped \<Rightarrow> \<lparr>Query = 1, Reference = 0\<rparr>
    | CigarHardClipped \<Rightarrow> \<lparr>Query = 0, Reference = 0\<rparr>
    | CigarPadded \<Rightarrow> \<lparr>Query = 0, Reference = 0\<rparr>
    | CigarEqual \<Rightarrow> \<lparr>Query = 1, Reference = 1\<rparr>
    | CigarMismatch \<Rightarrow> \<lparr>Query = 1, Reference = 1\<rparr>
    | CigarBack \<Rightarrow> \<lparr>Query = 0, Reference = - 1\<rparr>)"

record costPos =
  ref :: int
  query :: int
  cost :: rat

text \<open>
  The array \<open>cost\<close> of \<open>deletions\<close>, indexed by operation kind. Its literal lists six
  kinds; the last index, \<open>CigarBack\<close>, fixes the array length, and the elements that the
  literal leaves out are zero.
\<close>

definition cost_of :: "CigarOpType \<Rightarrow> rat" where
  "cost_of t = (case t of
      CigarInsertion \<Rightarrow> - 2
    | CigarDeletion \<Rightarrow> - 2
    | CigarEqual \<Rightarrow> 1
    | CigarMismatch \<Rightarrow> - 1
    | CigarSoftClipped \<Rightarrow> 0
    | CigarBack \<Rightarrow> 0
    | _ \<Rightarrow> 0)"

text \<open>
  The inner loop \<open>for i := 0; i < co.Len(); i++\<close>: one sample is appended for each unit,
  then the positions advance by the kind's consumption.
\<close>

fun op_units ::
  "(CigarOpType \<Rightarrow> Consume) \<Rightarrow> CigarOpType \<Rightarrow> nat \<Rightarrow> costPos list \<times> int \<times> int
    \<Rightarrow> costPos list \<times> int \<times> int" where
  "op_units consume t 0 s = s"
| "op_units consume t (Suc n) (scores, r, q) =
     op_units consume t n
       (scores @ [\<lparr>ref = r, query = q, cost = cost_of t\<rparr>],
        r + Reference (consume t), q + Query (consume t))"

text \<open>The outer loop \<open>for _, co := range r.Cigar\<close>, from \<open>ref = r.Start()\<close> and \<open>query = 0\<close>.\<close>

fun walk ::
  "(CigarOpType \<Rightarrow> Consume) \<Rightarrow> CigarOp list \<Rightarrow> costPos list \<times> int \<times> int
    \<Rightarrow> costPos list \<times> int \<times> int" where
  "walk consume [] s = s"
| "walk consume ((t, n) # cigar) s = walk consume cigar (op_units consume t n s)"

definition build_scores :: "(CigarOpType \<Rightarrow> Consume) \<Rightarrow> int \<Rightarrow> CigarOp list \<Rightarrow> costPos list" where
  "build_scores consume start cigar = fst (walk consume cigar ([], start, 0))"

text \<open>The kinds of the units of a CIGAR, in order: one entry per unit.\<close>

definition units :: "CigarOp list \<Rightarrow> CigarOpType list" where
  "units cigar = concat (map (\<lambda>(t, n). replicate n t) cigar)"

text \<open>The sum of the operation lengths.\<close>

definition total_len :: "CigarOp list \<Rightarrow> nat" where
  "total_len cigar = sum_list (map snd cigar)"

text \<open>
  The units that consume a position: those of a kind that advances the reference or the
  query.
\<close>

definition consuming :: "(CigarOpType \<Rightarrow> Consume) \<Rightarrow> CigarOpType \<Rightarrow> bool" where
  "consuming consume t \<longleftrightarrow> Reference (consume t) \<noteq> 0 \<or> Query (consume t) \<noteq> 0"

definition consumed_units :: "(CigarOpType \<Rightarrow> Consume) \<Rightarrow> CigarOp list \<Rightarrow> nat" where
  "consumed_units consume cigar = length (filter (consuming consume) (units cigar))"

text \<open>The reference and query positions consumed in total, counted separately.\<close>

definition consumed_positions :: "(CigarOpType \<Rightarrow> Consume) \<Rightarrow> CigarOp list \<Rightarrow> int" where
  "consumed_positions consume cigar =
     sum_list (map (\<lambda>t. \<bar>Reference (consume t)\<bar> + \<bar>Query (consume t)\<bar>) (units cigar))"

section \<open>The sliding mean\<close>






section \<open>The breakpoint refiner\<close>

text \<open>Integer division of Go truncates towards zero.\<close>

definition go_quot :: "int \<Rightarrow> int \<Rightarrow> int" where
  "go_quot a b = sgn a * sgn b * (\<bar>a\<bar> div \<bar>b\<bar>)"

text \<open>
  What \<open>deletions\<close> and \<open>adjust\<close> read of a \<open>*sam.Record\<close>: the read name, \<open>Ref.Name()\<close>,
  \<open>Start()\<close>, the reverse-strand flag, the CIGAR and the expanded read sequence
  (\<open>Seq.Length\<close> is its length).
\<close>

type_synonym Letters = string

record Record =
  Name :: string
  RefName :: string
  Start :: int
  Reverse :: bool
  Cigar :: "CigarOp list"
  SeqExpand :: Letters

text \<open>
  The struct \<open>deletion\<close>. Its field \<open>record\<close> is a pointer that \<open>deletions\<close> sets to nil
  between events: here \<open>recordp\<close>, an option.
\<close>

record deletion =
  recordp :: "Record option"
  rstart :: int
  rend :: int
  dup :: int
  qstart :: int
  qend :: int

text \<open>
  One aligned segment pair of a local alignment: \<open>Features()[0]\<close> is the segment on the
  reference window, \<open>Features()[1]\<close> the segment on the query window; the four fields are
  what \<open>Start()\<close> and \<open>End()\<close> return for them.
\<close>

record FeatPair =
  a_Start :: int
  a_End :: int
  b_Start :: int
  b_End :: int

text \<open>
  The struct \<open>refiner\<close>. The contig table (the field \<open>ref\<close> of the source) is \<open>contigs\<close>.
  The Smith-Waterman aligner \<open>sw.Align\<close> belongs to a library outside the sources: it is
  a parameter, a function from the two sequences to an error or the aligned segment
  pairs in order.
\<close>

record refiner =
  refWindow :: int
  queryWindow :: int
  minQueryGap :: int
  minRefFlank :: int
  contigs :: "string \<rightharpoonup> Letters"
  sw :: "Letters \<Rightarrow> Letters \<Rightarrow> string + FeatPair list"

text \<open>
  The error values of \<open>adjust\<close>, one constructor for each \<open>fmt.Errorf\<close> with its arguments,
  and \<open>AlignError\<close> for an error of the aligner.
\<close>

datatype reason =
    NotAnInsertion int int
  | NoReference string
  | AlignError string
  | RightRefFlank int int
  | LeftRefFlank int int
  | LeftQueryGap int int
  | RightQueryGap int int

text \<open>A call either panics (a slice or index out of range, a nil dereference) or returns.\<close>

datatype 'a outcome = Panics | Returns 'a

text \<open>The slice expression \<open>s[lo:hi]\<close> where it is in range.\<close>

definition slice :: "'a list \<Rightarrow> int \<Rightarrow> int \<Rightarrow> 'a list" where
  "slice s lo hi = take (nat (hi - lo)) (drop (nat lo) s)"

text \<open>
  The reference window of \<open>adjust\<close>: \<open>rOff\<close> and \<open>rs.Seq = ref.Seq[rOff : min(...)]\<close>. The
  slice expression panics when its bounds are out of order.
\<close>

definition refWindowOf :: "refiner \<Rightarrow> deletion \<Rightarrow> Letters \<Rightarrow> (int \<times> Letters) outcome" where
  "refWindowOf r d refseq =
     (let rOff = max 0 (rstart d - go_quot (refWindow r) 2);
          rHi = min (rend d + go_quot (refWindow r) 2) (int (length refseq))
      in if rOff \<le> rHi then Returns (rOff, slice refseq rOff rHi) else Panics)"

text \<open>
  The second half of \<open>adjust\<close>, from the two anchors on: \<open>left\<close> is the last segment pair
  of the left alignment and \<open>right\<close> the first of the right one. The flank and gap checks
  return the event as it came; past them the event is rewritten.
\<close>

definition anchor ::
  "refiner \<Rightarrow> deletion \<Rightarrow> int \<Rightarrow> Letters \<Rightarrow> int \<Rightarrow> int \<Rightarrow> FeatPair \<Rightarrow> FeatPair
    \<Rightarrow> deletion \<times> bool \<times> reason option" where
  "anchor r d rOff rs qOffLeft qOffRight left right =
     (if a_Start right < minRefFlank r
      then (d, False, Some (RightRefFlank (minRefFlank r) (a_Start right)))
      else if int (length rs) - a_End left < minRefFlank r
      then (d, False, Some (LeftRefFlank (minRefFlank r) (int (length rs) - a_End left)))
      else
        let centrel = queryWindow r + go_quot (qend d - qstart d) 2;
            centrer = 0
        in if centrel - b_End left < minQueryGap r
           then (d, False, Some (LeftQueryGap (minQueryGap r) (centrel - b_End left)))
           else if b_Start right - centrer < minQueryGap r
           then (d, False, Some (RightQueryGap (minQueryGap r) (b_Start right - centrer)))
           else
             let d1 = d\<lparr>rstart := rOff + a_End left\<rparr>;
                 d2 = d1\<lparr>rend := rOff + a_Start right\<rparr>;
                 d3 = (if rend d2 \<le> rstart d2
                       then (d2\<lparr>dup := rstart d2 - rend d2\<rparr>)\<lparr>rstart := rend d2\<rparr>
                       else d2);
                 d4 = d3\<lparr>qstart := qOffLeft + b_End left\<rparr>;
                 d5 = d4\<lparr>qend := qOffRight + b_Start right\<rparr>
             in (d5, True, None))"

text \<open>
  The method \<open>adjust\<close>; \<open>None\<close> is the nil refiner. The result is the returned triple
  \<open>(refined, ok, err)\<close>. The branches follow the source in order: each slice expression
  and each index of an alignment comes with its bounds check.
\<close>

definition adjust :: "refiner option \<Rightarrow> deletion \<Rightarrow> (deletion \<times> bool \<times> reason option) outcome" where
  "adjust br d =
     (case br of
        None \<Rightarrow> Returns (d, False, None)
      | Some r \<Rightarrow>
          if qend d - qstart d < rend d - rstart d
          then Returns (d, False, Some (NotAnInsertion (qend d - qstart d) (rend d - rstart d)))
          else
            (case recordp d of
               None \<Rightarrow> Panics
             | Some record \<Rightarrow>
                 (case contigs r (RefName record) of
                    None \<Rightarrow> Returns (d, False, Some (NoReference (RefName record)))
                  | Some refseq \<Rightarrow>
                      (case refWindowOf r d refseq of
                         Panics \<Rightarrow> Panics
                       | Returns (rOff, rs) \<Rightarrow>
                           let q = SeqExpand record;
                               qOffLeft = max 0 (qstart d - queryWindow r);
                               mid = go_quot (qstart d + qend d) 2
                           in if \<not> (qOffLeft \<le> mid \<and> mid \<le> int (length q)) then Panics
                              else
                                (case sw r rs (slice q qOffLeft mid) of
                                   Inl e \<Rightarrow> Returns (d, False, Some (AlignError e))
                                 | Inr alnl \<Rightarrow>
                                     let qOffRight = mid;
                                         qHi = min (qend d + queryWindow r) (int (length q))
                                     in if \<not> qOffRight \<le> qHi then Panics
                                        else
                                          (case sw r rs (slice q qOffRight qHi) of
                                             Inl e \<Rightarrow> Returns (d, False, Some (AlignError e))
                                           | Inr alnr \<Rightarrow>
                                               if alnl = [] then Panics
                                               else if alnr = [] then Panics
                                               else Returns
                                                 (anchor r d rOff rs qOffLeft qOffRight
                                                    (last alnl) (hd alnr))))))))"

section \<open>Segmentation and output\<close>





text \<open>
  The loop \<open>for i, v := range smoothed[1:]\<close> over the pairs \<open>(smoothed[i], v)\<close>, with the
  event \<open>d\<close> as its state and the written features as its output. The emission is a
  parameter, so that the segmentation can be stated for every emission.
\<close>

fun scan ::
  "(deletion \<Rightarrow> (deletion \<times> 'f) outcome) \<Rightarrow> Record \<Rightarrow> int \<Rightarrow> (costPos \<times> costPos) list
    \<Rightarrow> deletion \<Rightarrow> 'f list \<Rightarrow> 'f list outcome" where
  "scan em r minSize [] d out = Returns out"
| "scan em r minSize ((p, v) # rest) d out =
     (if recordp d = None \<and> cost v < 0 \<and> cost p \<ge> 0
      then scan em r minSize rest
             \<lparr>recordp = Some r, rstart = ref v + 1, rend = 0, dup = 0,
              qstart = query v + 1, qend = 0\<rparr> out
      else if recordp d \<noteq> None \<and> cost v \<ge> 0 \<and> cost p < 0
      then
        (let d1 = d\<lparr>rend := ref v, qend := query v\<rparr>
         in if rend d1 - rstart d1 \<ge> minSize \<or> qend d1 - qstart d1 \<ge> minSize
            then (case em d1 of
                    Panics \<Rightarrow> Panics
                  | Returns (d2, f) \<Rightarrow> scan em r minSize rest (d2\<lparr>recordp := None\<rparr>) (out @ [f]))
            else scan em r minSize rest (d1\<lparr>recordp := None\<rparr>) out)
      else scan em r minSize rest d out)"

text \<open>The zero value \<open>var d deletion\<close>.\<close>

definition zero_deletion :: deletion where
  "zero_deletion = \<lparr>recordp = None, rstart = 0, rend = 0, dup = 0, qstart = 0, qend = 0\<rparr>"


text \<open>
  The segmenter as the specification words it: a fold over the smoothed sequence from
  its second element, with the state \<open>none\<close> or \<open>open(startRef, startQuery)\<close>. An event
  still open at the end of the sequence is dropped.
\<close>

datatype fold_state = SNone | SOpen int int

record CandidateEvent =
  refStart :: int
  refEnd :: int
  queryStart :: int
  queryEnd :: int

fun segmenter :: "int \<Rightarrow> fold_state \<Rightarrow> (costPos \<times> costPos) list \<Rightarrow> CandidateEvent list" where
  "segmenter minSize st [] = []"
| "segmenter minSize SNone ((p, c) # rest) =
     (if cost p \<ge> 0 \<and> cost c < 0
      then segmenter minSize (SOpen (ref c + 1) (query c + 1)) rest
      else segmenter minSize SNone rest)"
| "segmenter minSize (SOpen a b) ((p, c) # rest) =
     (if cost p < 0 \<and> cost c \<ge> 0
      then (if ref c - a \<ge> minSize \<or> query c - b \<ge> minSize
            then [\<lparr>refStart = a, refEnd = ref c, queryStart = b, queryEnd = query c\<rparr>]
            else [])
           @ segmenter minSize SNone rest
      else segmenter minSize (SOpen a b) rest)"

text \<open>A candidate event of record \<open>r\<close> as the struct that the loop hands to the emission.\<close>

definition as_deletion :: "Record \<Rightarrow> CandidateEvent \<Rightarrow> deletion" where
  "as_deletion r c =
     \<lparr>recordp = Some r, rstart = refStart c, rend = refEnd c, dup = 0,
      qstart = queryStart c, qend = queryEnd c\<rparr>"

text \<open>Emitting a list of events in order, up to the first panic.\<close>

fun emit_all :: "(deletion \<Rightarrow> (deletion \<times> 'f) outcome) \<Rightarrow> deletion list \<Rightarrow> 'f list outcome" where
  "emit_all em [] = Returns []"
| "emit_all em (d # ds) =
     (case em d of
        Panics \<Rightarrow> Panics
      | Returns (d2, f) \<Rightarrow>
          (case emit_all em ds of Panics \<Rightarrow> Panics | Returns fs \<Rightarrow> Returns (f # fs)))"

section \<open>A worked refinement\<close>

text \<open>
  A contig of 30 bases, a read of 20 bases, and a refiner with a reference window of 4
  and a query window of 3. The aligner answers with one segment pair for the left query
  window of the event below (\<open>q[5:10]\<close>) and with another for any other query.
\<close>

definition example_contig :: Letters where
  "example_contig = ''ACGTACGTACGTACGTACGTACGTACGTAC''"

definition example_record :: Record where
  "example_record =
     \<lparr>Name = ''read1'', RefName = ''chr1'', Start = 0, Reverse = False, Cigar = [],
      SeqExpand = ''TTTTTCCCGGAAGGGTTTTT''\<rparr>"

definition example_sw :: "FeatPair \<Rightarrow> FeatPair \<Rightarrow> Letters \<Rightarrow> Letters \<Rightarrow> string + FeatPair list" where
  "example_sw left right rs qs = (if qs = ''CCCGG'' then Inr [left] else Inr [right])"

definition example_refiner :: "int \<Rightarrow> FeatPair \<Rightarrow> FeatPair \<Rightarrow> refiner" where
  "example_refiner flank left right =
     \<lparr>refWindow = 4, queryWindow = 3, minQueryGap = 1, minRefFlank = flank,
      contigs = [''chr1'' \<mapsto> example_contig], sw = example_sw left right\<rparr>"


definition example_insertion :: deletion where
  "example_insertion =
     \<lparr>recordp = Some example_record, rstart = 10, rend = 12, dup = 0, qstart = 8, qend = 12\<rparr>"

text \<open>The reasons that report an insufficient reference flank.\<close>

fun is_ref_flank :: "reason option \<Rightarrow> bool" where
  "is_ref_flank (Some (RightRefFlank m f)) = True"
| "is_ref_flank (Some (LeftRefFlank m f)) = True"
| "is_ref_flank _ = False"

text \<open>
  A read with a three-base insertion between two matched pairs of bases, aligned at
  reference position 7, and the emission that hands each event back as it is.
\<close>

definition inserted_read :: Record where
  "inserted_read =
     \<lparr>Name = ''read2'', RefName = ''chr1'', Start = 7, Reverse = False,
      Cigar = [(CigarEqual, 2), (CigarInsertion, 3), (CigarEqual, 2)],
      SeqExpand = ''ACGGGTA''\<rparr>"

definition hand_back :: "deletion \<Rightarrow> (deletion \<times> deletion) outcome" where
  "hand_back d = Returns (d, d)"

section \<open>Properties of the cost signal\<close>

lemma op_units_costs:
  "map cost (fst (op_units consume t n s)) = map cost (fst s) @ replicate n (cost_of t)"
proof (induction n arbitrary: s)
  case 0
  show ?case by simp
next
  case (Suc n)
  obtain scores r q where s: "s = (scores, r, q)" by (cases s)
  show ?case
    unfolding s by (simp add: Suc.IH replicate_app_Cons_same)
qed

lemma walk_costs:
  "map cost (fst (walk consume cigar s)) = map cost (fst s) @ map cost_of (units cigar)"
proof (induction cigar arbitrary: s)
  case Nil
  show ?case by (simp add: units_def)
next
  case (Cons co cigar)
  obtain t n where co: "co = (t, n)" by (cases co)
  show ?case
    unfolding co by (simp add: Cons.IH op_units_costs units_def map_replicate)
qed

lemma build_scores_costs:
  "map cost (build_scores consume start cigar) = map cost_of (units cigar)"
  by (simp add: build_scores_def walk_costs)

lemma length_units: "length (units cigar) = total_len cigar"
  by (induction cigar) (auto simp: units_def total_len_def)

lemma length_build_scores:
  "length (build_scores consume start cigar) = total_len cigar"
proof -
  have "length (map cost (build_scores consume start cigar)) = length (map cost_of (units cigar))"
    by (simp only: build_scores_costs)
  then show ?thesis by (simp add: length_units)
qed

lemma kind_sum:
  "(\<Sum>t\<leftarrow>ts. if t = k then cost_of t else 0) = of_nat (count_list ts k) * cost_of k"
  by (induction ts) (auto simp: algebra_simps)

lemma zip_kind_sum:
  "map cost ss = map cost_of ts \<Longrightarrow>
   (\<Sum>(t, s)\<leftarrow>zip ts ss. if t = k then cost s else 0) = (\<Sum>t\<leftarrow>ts. if t = k then cost_of t else 0)"
proof (induction ts arbitrary: ss)
  case Nil
  show ?case by simp
next
  case (Cons t ts)
  then obtain s ss' where ss: "ss = s # ss'" by (cases ss) auto
  with Cons.prems have "cost s = cost_of t" and "map cost ss' = map cost_of ts" by auto
  with Cons.IH [of ss'] show ?case unfolding ss by simp
qed

lemma consumed_units_all:
  "\<forall>t\<in>set ts. consuming consume t \<Longrightarrow> length (filter (consuming consume) ts) = length ts"
  by (induction ts) auto

lemma set_units: "set (units cigar) = {t. \<exists>n. (t, n) \<in> set cigar \<and> 0 < n}"
  by (induction cigar) (auto simp: units_def)

text \<open>
  C3. Each unit of each operation contributes one sample, and the cost of the sample is
  the table entry of the unit's kind: sequence match +1, mismatch -1, insertion -2,
  deletion -2, soft clip 0, and 0 for each of the five other kinds (no lookup fails).
  Hence the costs of the units of one kind \<open>k\<close> add up to the number of those units times
  the table entry of \<open>k\<close>.
\<close>

theorem cost_fixed_by_kind:
  "cost_of CigarEqual = 1 \<and> cost_of CigarMismatch = - 1 \<and> cost_of CigarInsertion = - 2
   \<and> cost_of CigarDeletion = - 2 \<and> cost_of CigarSoftClipped = 0
   \<and> cost_of CigarMatch = 0 \<and> cost_of CigarSkipped = 0 \<and> cost_of CigarHardClipped = 0
   \<and> cost_of CigarPadded = 0 \<and> cost_of CigarBack = 0
   \<and> map cost (build_scores consume start cigar) = map cost_of (units cigar)
   \<and> (\<Sum>(t, s)\<leftarrow>zip (units cigar) (build_scores consume start cigar). if t = k then cost s else 0)
       = of_nat (count_list (units cigar) k) * cost_of k"
proof -
  have table: "cost_of CigarEqual = 1 \<and> cost_of CigarMismatch = - 1 \<and> cost_of CigarInsertion = - 2
   \<and> cost_of CigarDeletion = - 2 \<and> cost_of CigarSoftClipped = 0
   \<and> cost_of CigarMatch = 0 \<and> cost_of CigarSkipped = 0 \<and> cost_of CigarHardClipped = 0
   \<and> cost_of CigarPadded = 0 \<and> cost_of CigarBack = 0"
    by (simp add: cost_of_def)
  have costs: "map cost (build_scores consume start cigar) = map cost_of (units cigar)"
    by (rule build_scores_costs)
  have "(\<Sum>(t, s)\<leftarrow>zip (units cigar) (build_scores consume start cigar). if t = k then cost s else 0)
       = (\<Sum>t\<leftarrow>units cigar. if t = k then cost_of t else 0)"
    by (rule zip_kind_sum [OF costs])
  then have sums: "(\<Sum>(t, s)\<leftarrow>zip (units cigar) (build_scores consume start cigar). if t = k then cost s else 0)
       = of_nat (count_list (units cigar) k) * cost_of k"
    by (simp only: kind_sum)
  from table costs sums show ?thesis by blast
qed

theorem cost_fixed_by_kind_witness:
  "map cost (build_scores Consumes 7 [(CigarEqual, 2), (CigarInsertion, 3), (CigarMatch, 1)])
     = [1, 1, - 2, - 2, - 2, 0]
   \<and> (\<Sum>(t, s)\<leftarrow>zip (units [(CigarEqual, 2), (CigarInsertion, 3), (CigarMatch, 1)])
          (build_scores Consumes 7 [(CigarEqual, 2), (CigarInsertion, 3), (CigarMatch, 1)]).
        if t = CigarInsertion then cost s else 0) = - 6"
  using cost_fixed_by_kind [of Consumes 7 "[(CigarEqual, 2), (CigarInsertion, 3), (CigarMatch, 1)]" CigarInsertion]
  by (simp add: units_def cost_of_def numeral_2_eq_2 numeral_3_eq_3)

text \<open>
  C4, as the code has it. The number of cost samples is the sum of the operation lengths:
  every unit of every operation yields a sample, also a unit of a kind that consumes
  neither a reference nor a query position. It is the number of consumed positions when
  every operation of the record that has units consumes a position.
\<close>

theorem sample_count:
  "length (build_scores consume start cigar) = total_len cigar
   \<and> ((\<forall>(t, n)\<in>set cigar. 0 < n \<longrightarrow> consuming consume t)
        \<longrightarrow> length (build_scores consume start cigar) = consumed_units consume cigar)"
proof -
  have len: "length (build_scores consume start cigar) = total_len cigar"
    by (rule length_build_scores)
  have "length (build_scores consume start cigar) = consumed_units consume cigar"
    if h: "\<forall>(t, n)\<in>set cigar. 0 < n \<longrightarrow> consuming consume t"
  proof -
    from h have "\<forall>t\<in>set (units cigar). consuming consume t"
      by (auto simp: set_units)
    then have "consumed_units consume cigar = length (units cigar)"
      unfolding consumed_units_def by (rule consumed_units_all)
    with len show ?thesis by (simp add: length_units)
  qed
  with len show ?thesis by blast
qed

theorem sample_count_witness:
  "consuming Consumes CigarEqual \<and> consuming Consumes CigarInsertion
   \<and> length (build_scores Consumes 7 [(CigarEqual, 2), (CigarInsertion, 3)]) = 5
   \<and> consumed_units Consumes [(CigarEqual, 2), (CigarInsertion, 3)] = 5"
  using sample_count [of Consumes 7 "[(CigarEqual, 2), (CigarInsertion, 3)]"]
  by (simp add: consuming_def Consumes_def total_len_def)

text \<open>
  C4, as the claim states it, fails on a record with a hard clip: the two units of the
  clip consume nothing and yield two samples.
\<close>

theorem sample_count_counterexample:
  "length (build_scores Consumes 7 [(CigarHardClipped, 2), (CigarEqual, 3)]) = 5
   \<and> consumed_units Consumes [(CigarHardClipped, 2), (CigarEqual, 3)] = 3
   \<and> consumed_positions Consumes [(CigarHardClipped, 2), (CigarEqual, 3)] = 6"
  by (simp add: build_scores_def consumed_units_def consumed_positions_def units_def
      consuming_def Consumes_def numeral_2_eq_2 numeral_3_eq_3)

section \<open>Properties of the sliding mean\<close>







section \<open>Properties of the refiner\<close>

lemma anchor_failure: "anchor r d rOff rs qL qR left right = (d', False, e) \<Longrightarrow> d' = d"
  by (auto simp: anchor_def Let_def split: if_splits)

lemma adjust_cases:
  assumes "adjust br d = Returns (d', ok, e)"
  shows "(d' = d \<and> \<not> ok \<and> \<not> is_ref_flank e)
    \<or> (\<exists>r record refseq rOff rs qL qR left right.
          br = Some r \<and> \<not> qend d - qstart d < rend d - rstart d
          \<and> recordp d = Some record \<and> contigs r (RefName record) = Some refseq
          \<and> refWindowOf r d refseq = Returns (rOff, rs)
          \<and> anchor r d rOff rs qL qR left right = (d', ok, e))"
  using assms
  by (auto simp: adjust_def Let_def
      split: option.splits if_splits outcome.splits sum.splits prod.splits)

lemma anchor_flank:
  "is_ref_flank (snd (snd (anchor r d rOff rs qL qR left right)))
     \<longleftrightarrow> a_Start right < minRefFlank r \<or> int (length rs) - a_End left < minRefFlank r"
  by (simp add: anchor_def Let_def)



lemma go_quot_examples: "go_quot 4 2 = 2" "go_quot 20 2 = 10" "go_quot 18 2 = 9"
  by (simp_all add: go_quot_def)




text \<open>
  C6. Whenever \<open>adjust\<close> returns \<open>ok = false\<close>, for whatever reason, the event it returns
  is the event it was given, in every field.
\<close>

theorem adjust_failure_unchanged:
  "adjust br d = Returns (d', False, e) \<Longrightarrow> d' = d"
proof -
  assume "adjust br d = Returns (d', False, e)"
  from adjust_cases [OF this] show "d' = d"
    by (auto dest: anchor_failure)
qed

theorem adjust_failure_unchanged_witness:
  "adjust (Some (example_refiner 3 \<lparr>a_Start = 4, a_End = 6, b_Start = 0, b_End = 2\<rparr>
                \<lparr>a_Start = 2, a_End = 4, b_Start = 3, b_End = 5\<rparr>)) example_insertion
     = Returns (example_insertion, False, Some (RightRefFlank 3 2))"
proof -
  have "adjust (Some (example_refiner 3 \<lparr>a_Start = 4, a_End = 6, b_Start = 0, b_End = 2\<rparr>
                \<lparr>a_Start = 2, a_End = 4, b_Start = 3, b_End = 5\<rparr>)) example_insertion
     = Returns (\<lparr>recordp = Some example_record, rstart = 10, rend = 12, dup = 0,
                 qstart = 8, qend = 12\<rparr>, False, Some (RightRefFlank 3 2))"
    by (simp add: adjust_def anchor_def refWindowOf_def example_refiner_def example_insertion_def
        example_contig_def example_record_def example_sw_def slice_def Let_def
        go_quot_examples)
  from this adjust_failure_unchanged [OF this] show ?thesis by simp
qed

text \<open>
  C7, as the code has it. The flank validation fails, with a reference-flank reason,
  \<open>ok = false\<close> and the event unchanged, exactly when the right anchor starts less than
  \<open>minRefFlank\<close> from the left edge of the reference window or the left anchor ends less
  than \<open>minRefFlank\<close> from its right edge: each anchor is measured against the far edge.
\<close>

theorem ref_flank_validation:
  "(is_ref_flank (snd (snd (anchor r d rOff rs qL qR left right)))
      \<longleftrightarrow> a_Start right < minRefFlank r \<or> int (length rs) - a_End left < minRefFlank r)
   \<and> (adjust br d = Returns (d', ok, e) \<longrightarrow> is_ref_flank e \<longrightarrow> \<not> ok \<and> d' = d)"
proof (rule conjI)
  show "is_ref_flank (snd (snd (anchor r d rOff rs qL qR left right)))
      \<longleftrightarrow> a_Start right < minRefFlank r \<or> int (length rs) - a_End left < minRefFlank r"
    by (rule anchor_flank)
next
  have "\<not> ok \<and> d' = d" if run: "adjust br d = Returns (d', ok, e)" and flank: "is_ref_flank e"
  proof -
    from adjust_cases [OF run] flank
    obtain r' rOff' rs' qL' qR' left' right'
      where a: "anchor r' d rOff' rs' qL' qR' left' right' = (d', ok, e)"
      by blast
    from a flank show ?thesis
      by (auto simp: anchor_def Let_def split: if_splits)
  qed
  then show "adjust br d = Returns (d', ok, e) \<longrightarrow> is_ref_flank e \<longrightarrow> \<not> ok \<and> d' = d"
    by blast
qed

theorem ref_flank_validation_witness:
  "is_ref_flank (Some (RightRefFlank 3 2))
   \<and> adjust (Some (example_refiner 3 \<lparr>a_Start = 4, a_End = 6, b_Start = 0, b_End = 2\<rparr>
                \<lparr>a_Start = 2, a_End = 4, b_Start = 3, b_End = 5\<rparr>)) example_insertion
       = Returns (example_insertion, False, Some (RightRefFlank 3 2))"
proof -
  have run: "adjust (Some (example_refiner 3 \<lparr>a_Start = 4, a_End = 6, b_Start = 0, b_End = 2\<rparr>
                \<lparr>a_Start = 2, a_End = 4, b_Start = 3, b_End = 5\<rparr>)) example_insertion
     = Returns (\<lparr>recordp = Some example_record, rstart = 10, rend = 12, dup = 0,
                 qstart = 8, qend = 12\<rparr>, False, Some (RightRefFlank 3 2))"
    by (simp add: adjust_def anchor_def refWindowOf_def example_refiner_def example_insertion_def
        example_contig_def example_record_def example_sw_def slice_def Let_def
        go_quot_examples)
  have fl: "is_ref_flank (Some (RightRefFlank 3 2))" by simp
  from ref_flank_validation [THEN conjunct2, rule_format, OF run fl] run fl
  show ?thesis by simp
qed

text \<open>
  C7, as the claim states it, fails in both directions. With \<open>minRefFlank = 3\<close> and a
  window of 6 bases, a left anchor ending 2 from the left edge and a right anchor
  starting 2 from the right edge pass the validation and the event is refined; a left
  anchor ending 4 from the left edge and a right anchor starting 3 from the right edge
  are refused, because the left anchor ends 2 from the right edge.
\<close>

theorem ref_flank_validation_counterexample:
  "adjust (Some (example_refiner 3 \<lparr>a_Start = 0, a_End = 2, b_Start = 0, b_End = 2\<rparr>
                \<lparr>a_Start = 4, a_End = 6, b_Start = 3, b_End = 5\<rparr>)) example_insertion
     = Returns (\<lparr>recordp = Some example_record, rstart = 10, rend = 12, dup = 0,
                 qstart = 7, qend = 13\<rparr>, True, None)
   \<and> adjust (Some (example_refiner 3 \<lparr>a_Start = 2, a_End = 4, b_Start = 0, b_End = 2\<rparr>
                \<lparr>a_Start = 3, a_End = 5, b_Start = 3, b_End = 5\<rparr>)) example_insertion
     = Returns (example_insertion, False, Some (LeftRefFlank 3 2))"
  by (simp add: adjust_def anchor_def refWindowOf_def example_refiner_def example_insertion_def
        example_contig_def example_record_def example_sw_def slice_def Let_def
        go_quot_examples)







section \<open>Properties of the segmentation\<close>

lemma emit_all_append:
  "emit_all em (xs @ ys) =
     (case emit_all em xs of
        Panics \<Rightarrow> Panics
      | Returns fs \<Rightarrow> (case emit_all em ys of Panics \<Rightarrow> Panics | Returns gs \<Rightarrow> Returns (fs @ gs)))"
  by (induction xs) (auto split: outcome.splits prod.splits)

lemma scan_segmenter:
  assumes "(st = SNone \<and> recordp d = None)
     \<or> (\<exists>a b. st = SOpen a b
           \<and> d = \<lparr>recordp = Some r, rstart = a, rend = 0, dup = 0, qstart = b, qend = 0\<rparr>)"
  shows "scan em r m ps d out =
     (case emit_all em (map (as_deletion r) (segmenter m st ps)) of
        Panics \<Rightarrow> Panics
      | Returns fs \<Rightarrow> Returns (out @ fs))"
  using assms
proof (induction ps arbitrary: st d out)
  case Nil
  show ?case by simp
next
  case (Cons pv ps)
  obtain p v where pv: "pv = (p, v)" by (cases pv)
  from Cons.prems show ?case
  proof (elim disjE conjE exE)
    assume st: "st = SNone" and d: "recordp d = None"
    show ?thesis
    proof (cases "cost p \<ge> 0 \<and> cost v < 0")
      case True
      have "scan em r m (pv # ps) d out
          = scan em r m ps \<lparr>recordp = Some r, rstart = ref v + 1, rend = 0, dup = 0,
                            qstart = query v + 1, qend = 0\<rparr> out"
        unfolding pv using True d by simp
      also have "\<dots> = (case emit_all em (map (as_deletion r)
                          (segmenter m (SOpen (ref v + 1) (query v + 1)) ps)) of
                        Panics \<Rightarrow> Panics | Returns fs \<Rightarrow> Returns (out @ fs))"
        by (rule Cons.IH) simp
      finally show ?thesis unfolding pv st using True by simp
    next
      case False
      have "scan em r m (pv # ps) d out = scan em r m ps d out"
        unfolding pv using False d by auto
      also have "\<dots> = (case emit_all em (map (as_deletion r) (segmenter m SNone ps)) of
                        Panics \<Rightarrow> Panics | Returns fs \<Rightarrow> Returns (out @ fs))"
        by (rule Cons.IH) (simp add: d)
      finally show ?thesis unfolding pv st using False by auto
    qed
  next
    fix a b
    assume st: "st = SOpen a b"
      and d: "d = \<lparr>recordp = Some r, rstart = a, rend = 0, dup = 0, qstart = b, qend = 0\<rparr>"
    let ?e = "\<lparr>recordp = Some r, rstart = a, rend = ref v, dup = 0, qstart = b,
                qend = query v\<rparr>"
    show ?thesis
    proof (cases "cost p < 0 \<and> cost v \<ge> 0")
      case close: True
      show ?thesis
      proof (cases "ref v - a \<ge> m \<or> query v - b \<ge> m")
        case big: True
        show ?thesis
        proof (cases "em ?e")
          case Panics
          have "scan em r m (pv # ps) d out = Panics"
            unfolding pv using close big Panics by (simp add: d Let_def)
          then show ?thesis
            unfolding pv st using close big Panics by (simp add: as_deletion_def)
        next
          case (Returns df)
          obtain d2 f where df: "df = (d2, f)" by (cases df)
          have "scan em r m (pv # ps) d out
              = scan em r m ps (d2\<lparr>recordp := None\<rparr>) (out @ [f])"
            unfolding pv using close big Returns df by (simp add: d Let_def)
          also have "\<dots> = (case emit_all em (map (as_deletion r) (segmenter m SNone ps)) of
                        Panics \<Rightarrow> Panics | Returns fs \<Rightarrow> Returns ((out @ [f]) @ fs))"
            by (rule Cons.IH) simp
          finally have L: "scan em r m (pv # ps) d out
              = (case emit_all em (map (as_deletion r) (segmenter m SNone ps)) of
                   Panics \<Rightarrow> Panics | Returns fs \<Rightarrow> Returns ((out @ [f]) @ fs))" .
          have seg: "segmenter m st (pv # ps)
              = \<lparr>refStart = a, refEnd = ref v, queryStart = b, queryEnd = query v\<rparr>
                  # segmenter m SNone ps"
            unfolding pv st using close big by simp
          have ec: "em (as_deletion r
                \<lparr>refStart = a, refEnd = ref v, queryStart = b, queryEnd = query v\<rparr>)
              = Returns (d2, f)"
            using Returns df by (simp add: as_deletion_def)
          show ?thesis
            unfolding L seg by (simp add: ec split: outcome.splits)
        qed
      next
        case small: False
        have "scan em r m (pv # ps) d out
            = scan em r m ps ((d\<lparr>rend := ref v, qend := query v\<rparr>)\<lparr>recordp := None\<rparr>) out"
          unfolding pv using close small by (simp add: d Let_def)
        also have "\<dots> = (case emit_all em (map (as_deletion r) (segmenter m SNone ps)) of
                        Panics \<Rightarrow> Panics | Returns fs \<Rightarrow> Returns (out @ fs))"
          by (rule Cons.IH) simp
        finally show ?thesis unfolding pv st using close small by simp
      qed
    next
      case False
      have "scan em r m (pv # ps) d out = scan em r m ps d out"
        unfolding pv using False by (auto simp: d)
      also have "\<dots> = (case emit_all em (map (as_deletion r) (segmenter m (SOpen a b) ps)) of
                        Panics \<Rightarrow> Panics | Returns fs \<Rightarrow> Returns (out @ fs))"
        by (rule Cons.IH) (simp add: d)
      finally show ?thesis unfolding pv st using False by auto
    qed
  qed
qed

lemma segmenter_no_close:
  "\<forall>(p, c)\<in>set qs. cost c < 0 \<Longrightarrow> segmenter m st qs = []"
proof (induction qs arbitrary: st)
  case Nil
  show ?case by simp
next
  case (Cons pc qs)
  obtain p c where pc: "pc = (p, c)" by (cases pc)
  from Cons.prems have neg: "cost c < 0" and rest: "\<forall>(p, c)\<in>set qs. cost c < 0"
    by (auto simp: pc)
  show ?case
    unfolding pc using neg Cons.IH [OF rest] by (cases st) auto
qed

lemma segmenter_trailing:
  "\<forall>(p, c)\<in>set qs. cost c < 0 \<Longrightarrow> segmenter m st (ps @ qs) = segmenter m st ps"
proof (induction ps arbitrary: st)
  case Nil
  then show ?case by (simp add: segmenter_no_close)
next
  case (Cons pc ps)
  obtain p c where pc: "pc = (p, c)" by (cases pc)
  show ?case
    unfolding pc using Cons.IH [OF Cons.prems] by (cases st) auto
qed

lemma zip_tl_append:
  "xs \<noteq> [] \<Longrightarrow> zip (xs @ ys) (tl (xs @ ys)) = zip xs (tl xs) @ zip (last xs # ys) ys"
proof (induction xs)
  case Nil
  then show ?case by simp
next
  case (Cons x xs)
  show ?case
  proof (cases xs)
    case Nil
    then show ?thesis by simp
  next
    case (Cons y zs)
    with Cons.IH show ?thesis by simp
  qed
qed

lemma pairs_trailing:
  "\<forall>s\<in>set ys. cost s < 0 \<Longrightarrow> \<forall>(p, c)\<in>set (zip zs ys). cost c < 0"
  by (auto dest: set_zip_rightD)

text \<open>
  C1. Whatever the emission does with an event, the loop of \<open>deletions\<close> over the
  smoothed sequence hands it exactly the events of the two-state fold, in order: the
  fold starts at the second element in the state \<open>none\<close>, opens at a sample with a
  negative cost after a non-negative one, at that sample's positions plus one, closes at
  a sample with a non-negative cost after a negative one, at that sample's positions,
  and keeps the closed span if and only if its reference span or its query span is at
  least \<open>minSize\<close>. Samples of negative cost appended to the sequence change nothing: an
  event that is open when the sequence ends yields no candidate.
\<close>

theorem scan_is_segmenter:
  "scan em r minSize (zip smoothed (tl smoothed)) zero_deletion []
     = emit_all em (map (as_deletion r) (segmenter minSize SNone (zip smoothed (tl smoothed))))
   \<and> ((\<forall>s\<in>set trailing. cost s < 0) \<longrightarrow>
        scan em r minSize (zip (smoothed @ trailing) (tl (smoothed @ trailing))) zero_deletion []
          = scan em r minSize (zip smoothed (tl smoothed)) zero_deletion [])"
proof -
  have start: "(SNone = SNone \<and> recordp zero_deletion = None)
     \<or> (\<exists>a b. SNone = SOpen a b
           \<and> zero_deletion = \<lparr>recordp = Some r, rstart = a, rend = 0, dup = 0, qstart = b, qend = 0\<rparr>)"
    by (simp add: zero_deletion_def)
  have eq: "scan em r minSize ps zero_deletion []
     = emit_all em (map (as_deletion r) (segmenter minSize SNone ps))" for ps
    unfolding scan_segmenter [OF start] by (simp split: outcome.splits)
  have tr: "scan em r minSize (zip (smoothed @ trailing) (tl (smoothed @ trailing))) zero_deletion []
          = scan em r minSize (zip smoothed (tl smoothed)) zero_deletion []"
    if neg: "\<forall>s\<in>set trailing. cost s < 0"
  proof (cases "smoothed = []")
    case True
    from neg have "\<forall>s\<in>set (tl trailing). cost s < 0"
      by (cases trailing) auto
    then have "\<forall>(p, c)\<in>set (zip trailing (tl trailing)). cost c < 0"
      by (rule pairs_trailing)
    then have "segmenter minSize SNone (zip trailing (tl trailing)) = []"
      by (rule segmenter_no_close)
    with True show ?thesis by (simp add: eq)
  next
    case False
    from neg have "\<forall>(p, c)\<in>set (zip (last smoothed # trailing) trailing). cost c < 0"
      by (rule pairs_trailing)
    then have "segmenter minSize SNone (zip smoothed (tl smoothed) @ zip (last smoothed # trailing) trailing)
        = segmenter minSize SNone (zip smoothed (tl smoothed))"
      by (rule segmenter_trailing)
    then show ?thesis by (simp add: eq zip_tl_append [OF False])
  qed
  from eq tr show ?thesis by blast
qed

theorem scan_is_segmenter_witness:
  "cost \<lparr>ref = 10, query = 6, cost = - 1\<rparr> < 0
   \<and> scan hand_back inserted_read 2
        (zip [\<lparr>ref = 7, query = 0, cost = 1\<rparr>, \<lparr>ref = 8, query = 1, cost = 1\<rparr>,
              \<lparr>ref = 9, query = 2, cost = - 2\<rparr>, \<lparr>ref = 9, query = 3, cost = - 2\<rparr>,
              \<lparr>ref = 9, query = 4, cost = - 2\<rparr>, \<lparr>ref = 9, query = 5, cost = 1\<rparr>]
          (tl [\<lparr>ref = 7, query = 0, cost = 1\<rparr>, \<lparr>ref = 8, query = 1, cost = 1\<rparr>,
              \<lparr>ref = 9, query = 2, cost = - 2\<rparr>, \<lparr>ref = 9, query = 3, cost = - 2\<rparr>,
              \<lparr>ref = 9, query = 4, cost = - 2\<rparr>, \<lparr>ref = 9, query = 5, cost = 1\<rparr>]))
        zero_deletion []
      = Returns [\<lparr>recordp = Some inserted_read, rstart = 10, rend = 9, dup = 0,
                  qstart = 3, qend = 5\<rparr>]
   \<and> scan hand_back inserted_read 2
        (zip ([\<lparr>ref = 7, query = 0, cost = 1\<rparr>, \<lparr>ref = 8, query = 1, cost = 1\<rparr>,
              \<lparr>ref = 9, query = 2, cost = - 2\<rparr>, \<lparr>ref = 9, query = 3, cost = - 2\<rparr>,
              \<lparr>ref = 9, query = 4, cost = - 2\<rparr>, \<lparr>ref = 9, query = 5, cost = 1\<rparr>]
               @ [\<lparr>ref = 10, query = 6, cost = - 1\<rparr>])
          (tl ([\<lparr>ref = 7, query = 0, cost = 1\<rparr>, \<lparr>ref = 8, query = 1, cost = 1\<rparr>,
              \<lparr>ref = 9, query = 2, cost = - 2\<rparr>, \<lparr>ref = 9, query = 3, cost = - 2\<rparr>,
              \<lparr>ref = 9, query = 4, cost = - 2\<rparr>, \<lparr>ref = 9, query = 5, cost = 1\<rparr>]
               @ [\<lparr>ref = 10, query = 6, cost = - 1\<rparr>])))
        zero_deletion []
      = Returns [\<lparr>recordp = Some inserted_read, rstart = 10, rend = 9, dup = 0,
                  qstart = 3, qend = 5\<rparr>]"
proof -
  let ?sm = "[\<lparr>ref = 7, query = 0, cost = 1\<rparr>, \<lparr>ref = 8, query = 1, cost = 1\<rparr>,
              \<lparr>ref = 9, query = 2, cost = - 2\<rparr>, \<lparr>ref = 9, query = 3, cost = - 2\<rparr>,
              \<lparr>ref = 9, query = 4, cost = - 2\<rparr>, \<lparr>ref = 9, query = 5, cost = 1\<rparr>]"
  let ?t = "\<lparr>ref = 10, query = 6, cost = - 1\<rparr>"
  let ?out = "Returns [\<lparr>recordp = Some inserted_read, rstart = 10, rend = 9, dup = 0,
                  qstart = 3, qend = 5\<rparr>]"
  note inst = scan_is_segmenter [of hand_back inserted_read 2 ?sm "[?t]"]
  have neg: "\<forall>s\<in>set [?t]. cost s < 0" by simp
  have seg: "emit_all hand_back (map (as_deletion inserted_read)
                (segmenter 2 SNone (zip ?sm (tl ?sm)))) = ?out"
    by (simp add: as_deletion_def hand_back_def)
  from inst seg have a: "scan hand_back inserted_read 2 (zip ?sm (tl ?sm)) zero_deletion [] = ?out"
    by simp
  from inst neg have "scan hand_back inserted_read 2 (zip (?sm @ [?t]) (tl (?sm @ [?t])))
      zero_deletion [] = scan hand_back inserted_read 2 (zip ?sm (tl ?sm)) zero_deletion []"
    by blast
  with a have b: "scan hand_back inserted_read 2 (zip (?sm @ [?t]) (tl (?sm @ [?t])))
      zero_deletion [] = ?out"
    by simp
  have c: "cost ?t < 0" by simp
  from c a b show ?thesis by blast
qed




end
